theory Spec2Isabelle
  imports Complex_Main
begin

section \<open>Python values used by \<^verbatim>\<open>src/monitor/core.py\<close>\<close>

text \<open>
  A Python \<^verbatim>\<open>float\<close> is an IEEE double: a finite value (a rational number), an infinity or
  NaN. Comparison with an \<^verbatim>\<open>int\<close> literal and truthiness are exact on these values, so
  they are modelled on the value itself. Float arithmetic, \<^verbatim>\<open>round\<close> and \<^verbatim>\<open>float(str)\<close>
  are primitives of the Python runtime, not code of this repository: they are taken as
  parameters (record \<open>runtime\<close>), each free to return a value or to raise.
\<close>

datatype pyfloat = Finite rat | PosInf | NegInf | NaN

datatype pynum = PyInt int | PyFloat pyfloat

text \<open>\<^verbatim>\<open>x > k\<close> for a float \<open>x\<close> and an int literal \<open>k\<close>; NaN compares false.\<close>

fun float_gt_int :: "pyfloat \<Rightarrow> int \<Rightarrow> bool" where
  "float_gt_int (Finite q) k = (of_int k < q)"
| "float_gt_int PosInf k = True"
| "float_gt_int NegInf k = False"
| "float_gt_int NaN k = False"

fun num_gt_int :: "pynum \<Rightarrow> int \<Rightarrow> bool" where
  "num_gt_int (PyInt i) k = (k < i)"
| "num_gt_int (PyFloat x) k = float_gt_int x k"

text \<open>Truthiness of a float: only zero is falsy (NaN and the infinities are truthy).\<close>

fun float_truthy :: "pyfloat \<Rightarrow> bool" where
  "float_truthy (Finite q) = (q \<noteq> 0)"
| "float_truthy PosInf = True"
| "float_truthy NegInf = True"
| "float_truthy NaN = True"

text \<open>
  A Python \<^verbatim>\<open>str\<close> read from outside (a file's content, a process's output) is a list of
  code points. The names written in the source are ASCII literals and stay HOL strings.
\<close>

type_synonym pystr = "nat list"

definition pystr :: "string \<Rightarrow> pystr" where
  "pystr s = map of_char s"

text \<open>\<^verbatim>\<open>str.isspace\<close> on one code point, and \<^verbatim>\<open>str.strip()\<close> with no argument.\<close>

definition py_isspace :: "nat \<Rightarrow> bool" where
  "py_isspace c =
     ((9 \<le> c \<and> c \<le> 13) \<or> (28 \<le> c \<and> c \<le> 32) \<or> c = 133 \<or> c = 160 \<or> c = 5760
      \<or> (8192 \<le> c \<and> c \<le> 8202) \<or> c = 8232 \<or> c = 8233 \<or> c = 8239 \<or> c = 8287
      \<or> c = 12288)"

definition py_strip :: "pystr \<Rightarrow> pystr" where
  "py_strip s = rev (dropWhile py_isspace (rev (dropWhile py_isspace s)))"

datatype py_exception =
    KeyError string
  | TypeError
  | ValueError
  | ZeroDivisionError
  | OverflowError
  | OSError string
  | OtherException string

text \<open>The sequencing of statements that may raise: the first exception ends the block.\<close>

definition try_bind :: "py_exception + 'a \<Rightarrow> ('a \<Rightarrow> py_exception + 'b) \<Rightarrow> py_exception + 'b" where
  "try_bind r f = (case r of Inl ex \<Rightarrow> Inl ex | Inr v \<Rightarrow> f v)"

text \<open>
  A \<^verbatim>\<open>dict\<close> keeps insertion order: an association list with distinct keys.
  \<^verbatim>\<open>d[k]\<close> raises \<^verbatim>\<open>KeyError\<close> on a missing key; \<^verbatim>\<open>d[k] = v\<close> overwrites in place or
  appends.
\<close>

type_synonym 'v pydict = "(string \<times> 'v) list"

definition dict_getitem :: "'v pydict \<Rightarrow> string \<Rightarrow> py_exception + 'v" where
  "dict_getitem d k = (case map_of d k of None \<Rightarrow> Inl (KeyError k) | Some v \<Rightarrow> Inr v)"

fun dict_setitem :: "'v pydict \<Rightarrow> string \<Rightarrow> 'v \<Rightarrow> 'v pydict" where
  "dict_setitem [] k v = [(k, v)]"
| "dict_setitem ((k', v') # d) k v =
     (if k' = k then (k', v) # d else (k', v') # dict_setitem d k v)"

section \<open>The snapshot and the log\<close>

text \<open>
  The dictionary built by \<^verbatim>\<open>get_all_metrics\<close> always has the same five keys, so it is a
  record. A failed CPU or memory source leaves the empty dict, a failed temperature
  source leaves \<^verbatim>\<open>None\<close>.
\<close>

record snapshot =
  timestamp :: string
  cpu :: "pynum pydict"
  memory :: "pynum pydict"
  temperature :: "pyfloat option"
  services :: "bool pydict"

text \<open>
  The logger is the only state of the monitor. Each call of \<^verbatim>\<open>self.logger\<close> in the source
  is one constructor of \<open>message\<close>, carrying the values its f-string formats.
\<close>

datatype level = INFO | WARNING | ERROR

datatype message =
    StartingMonitoring
  | CurrentMetrics snapshot
  | HighTemperature pyfloat
  | HighMemory
  | ServiceNotRunning string
  | MonitoringStopped
  | MonitoringError py_exception
  | ErrorCpu py_exception
  | ErrorTemperature py_exception
  | ErrorMemory py_exception
  | ErrorService string py_exception

type_synonym log = "(level \<times> message) list"

section \<open>The alert rules (\<^verbatim>\<open>start_monitoring\<close>, lines 144 to 155)\<close>

text \<open>
  \<^verbatim>\<open>if metrics['temperature'] and metrics['temperature'] > 80: warning(...)\<close>
\<close>

definition temperature_rule :: "snapshot \<Rightarrow> log \<Rightarrow> log" where
  "temperature_rule m lg =
     (case temperature m of
        None \<Rightarrow> lg
      | Some t \<Rightarrow>
          if float_truthy t \<and> float_gt_int t 80
          then lg @ [(WARNING, HighTemperature t)] else lg)"

text \<open>
  \<^verbatim>\<open>if metrics['memory']['memory_used_percent'] > 90: warning(...)\<close>: the subscript raises
  \<^verbatim>\<open>KeyError\<close> when the key is missing; the log written so far stays.
\<close>

definition memory_rule :: "snapshot \<Rightarrow> log \<Rightarrow> (py_exception + unit) \<times> log" where
  "memory_rule m lg =
     (case dict_getitem (memory m) ''memory_used_percent'' of
        Inl ex \<Rightarrow> (Inl ex, lg)
      | Inr v \<Rightarrow> (Inr (), if num_gt_int v 90 then lg @ [(WARNING, HighMemory)] else lg))"

text \<open>
  \<^verbatim>\<open>for service, status in metrics['services'].items(): if not status: warning(...)\<close>
\<close>

fun services_rule :: "bool pydict \<Rightarrow> log \<Rightarrow> log" where
  "services_rule [] lg = lg"
| "services_rule ((service, status) # rest) lg =
     services_rule rest
       (if \<not> status then lg @ [(WARNING, ServiceNotRunning service)] else lg)"

definition evaluate_alerts :: "snapshot \<Rightarrow> log \<Rightarrow> (py_exception + unit) \<times> log" where
  "evaluate_alerts m lg =
     (case memory_rule m (temperature_rule m lg) of
        (Inl ex, lg') \<Rightarrow> (Inl ex, lg')
      | (Inr u, lg') \<Rightarrow> (Inr (), services_rule (services m) lg'))"

text \<open>What one evaluation, started on an empty log, writes.\<close>

definition alerts_of :: "snapshot \<Rightarrow> log" where
  "alerts_of m = snd (evaluate_alerts m [])"

definition is_high_temperature :: "level \<times> message \<Rightarrow> bool" where
  "is_high_temperature r = (case r of (WARNING, HighTemperature t) \<Rightarrow> True | _ \<Rightarrow> False)"

definition is_high_memory :: "level \<times> message \<Rightarrow> bool" where
  "is_high_memory r = (r = (WARNING, HighMemory))"

definition is_service_down :: "level \<times> message \<Rightarrow> bool" where
  "is_service_down r = (case r of (WARNING, ServiceNotRunning s) \<Rightarrow> True | _ \<Rightarrow> False)"

section \<open>The host: what the external calls answer during one tick\<close>

text \<open>
  The float primitives of the Python runtime. \<open>truediv\<close> is \<^verbatim>\<open>/\<close>, \<open>mult\<close> is \<^verbatim>\<open>*\<close> with a
  float on the left, \<open>round_ndigits\<close> is \<^verbatim>\<open>round(x, n)\<close>, \<open>float_of_str\<close> is \<^verbatim>\<open>float(s)\<close>.
\<close>

record runtime =
  float_of_str :: "pystr \<Rightarrow> py_exception + pyfloat"
  truediv :: "pynum \<Rightarrow> pynum \<Rightarrow> py_exception + pyfloat"
  mult :: "pyfloat \<Rightarrow> pynum \<Rightarrow> py_exception + pyfloat"
  round_ndigits :: "pyfloat \<Rightarrow> int \<Rightarrow> py_exception + pyfloat"

text \<open>
  The arguments of one \<^verbatim>\<open>subprocess.run\<close> call. \<open>timeout\<close> is the keyword of that name, in
  seconds; \<open>None\<close> is the library's default, under which the call waits for the child
  without limit.
\<close>

record run_call =
  argv :: "string list"
  capture_output :: bool
  text_mode :: bool
  timeout :: "rat option"

text \<open>
  One tick's answers of \<^verbatim>\<open>psutil\<close>, of the temperature file and of \<^verbatim>\<open>systemctl\<close>: each call
  either returns (\<open>Inr\<close>) or raises an \<^verbatim>\<open>Exception\<close> (\<open>Inl\<close>). \<open>cpu_count\<close> may return
  \<^verbatim>\<open>None\<close>; \<open>cpu_freq\<close> returns \<^verbatim>\<open>None\<close> or a tuple, of which the source reads \<^verbatim>\<open>.current\<close>
  (the two calls of \<^verbatim>\<open>psutil.cpu_freq()\<close> in one expression get the same answer);
  \<open>virtual_memory\<close> gives (\<^verbatim>\<open>percent\<close>, \<^verbatim>\<open>available\<close>), \<open>swap_memory\<close> gives
  (\<^verbatim>\<open>percent\<close>, \<^verbatim>\<open>free\<close>); \<open>read_temp_path\<close> is \<^verbatim>\<open>open(self.temp_path).read()\<close>;
  \<open>subprocess_run\<close> gives \<^verbatim>\<open>result.stdout\<close>. \<open>interrupted\<close> says that a
  \<^verbatim>\<open>KeyboardInterrupt\<close> arrives during this tick's \<^verbatim>\<open>time.sleep\<close>.
\<close>

record env =
  now_isoformat :: string
  getloadavg :: "py_exception + (pyfloat \<times> pyfloat \<times> pyfloat)"
  cpu_count :: "py_exception + int option"
  cpu_percent :: "py_exception + pyfloat"
  cpu_freq :: "py_exception + pynum option"
  virtual_memory :: "py_exception + (pynum \<times> int)"
  swap_memory :: "py_exception + (pynum \<times> int)"
  read_temp_path :: "py_exception + pystr"
  subprocess_run :: "run_call \<Rightarrow> py_exception + pystr"
  interrupted :: bool

section \<open>The metric sources\<close>

definition dev_services :: "string list" where
  "dev_services = [''ssh'', ''docker'', ''nginx'', ''postgresql'']"

text \<open>\<^verbatim>\<open>round(load/cpu_count * 100, 2)\<close>; dividing by \<^verbatim>\<open>None\<close> raises \<^verbatim>\<open>TypeError\<close>.\<close>

definition load_percent :: "runtime \<Rightarrow> pyfloat \<Rightarrow> int option \<Rightarrow> py_exception + pyfloat" where
  "load_percent rt load count =
     (case count of
        None \<Rightarrow> Inl TypeError
      | Some n \<Rightarrow>
          try_bind (truediv rt (PyFloat load) (PyInt n)) (\<lambda>q.
          try_bind (mult rt q (PyInt 100)) (\<lambda>p.
          round_ndigits rt p 2)))"

text \<open>The \<^verbatim>\<open>try\<close> block of \<^verbatim>\<open>get_cpu_metrics\<close>, in the order the source evaluates it.\<close>

definition cpu_sample :: "runtime \<Rightarrow> env \<Rightarrow> py_exception + pynum pydict" where
  "cpu_sample rt e =
     try_bind (getloadavg e) (\<lambda>(load1, load5, load15).
     try_bind (cpu_count e) (\<lambda>count.
     try_bind (cpu_percent e) (\<lambda>percent.
     try_bind (load_percent rt load1 count) (\<lambda>l1.
     try_bind (load_percent rt load5 count) (\<lambda>l5.
     try_bind (load_percent rt load15 count) (\<lambda>l15.
     try_bind (cpu_freq e) (\<lambda>freq.
       Inr [(''cpu_percent'', PyFloat percent),
            (''load_1min'', PyFloat l1),
            (''load_5min'', PyFloat l5),
            (''load_15min'', PyFloat l15),
            (''cpu_freq'', case freq of Some current \<Rightarrow> current | None \<Rightarrow> PyInt 0)])))))))"

definition get_cpu_metrics :: "runtime \<Rightarrow> env \<Rightarrow> log \<Rightarrow> pynum pydict \<times> log" where
  "get_cpu_metrics rt e lg =
     (case cpu_sample rt e of
        Inr d \<Rightarrow> (d, lg)
      | Inl ex \<Rightarrow> ([], lg @ [(ERROR, ErrorCpu ex)]))"

text \<open>
  The \<^verbatim>\<open>try\<close> block of \<^verbatim>\<open>get_temperature\<close>:
  \<^verbatim>\<open>round(float(f.read().strip()) / 1000.0, 2)\<close>.
\<close>

definition temperature_sample :: "runtime \<Rightarrow> env \<Rightarrow> py_exception + pyfloat" where
  "temperature_sample rt e =
     try_bind (read_temp_path e) (\<lambda>content.
     try_bind (float_of_str rt (py_strip content)) (\<lambda>milli.
     try_bind (truediv rt (PyFloat milli) (PyFloat (Finite 1000))) (\<lambda>q.
     round_ndigits rt q 2)))"

definition get_temperature :: "runtime \<Rightarrow> env \<Rightarrow> log \<Rightarrow> pyfloat option \<times> log" where
  "get_temperature rt e lg =
     (case temperature_sample rt e of
        Inr t \<Rightarrow> (Some t, lg)
      | Inl ex \<Rightarrow> (None, lg @ [(ERROR, ErrorTemperature ex)]))"

text \<open>\<^verbatim>\<open>round(n / (1024**3), 2)\<close> for an int \<open>n\<close> of bytes.\<close>

definition to_gb :: "runtime \<Rightarrow> int \<Rightarrow> py_exception + pyfloat" where
  "to_gb rt n =
     try_bind (truediv rt (PyInt n) (PyInt (1024 ^ 3))) (\<lambda>q. round_ndigits rt q 2)"

definition memory_sample :: "runtime \<Rightarrow> env \<Rightarrow> py_exception + pynum pydict" where
  "memory_sample rt e =
     try_bind (virtual_memory e) (\<lambda>(mem_percent, mem_available).
     try_bind (swap_memory e) (\<lambda>(swap_percent, swap_free).
     try_bind (to_gb rt mem_available) (\<lambda>available_gb.
     try_bind (to_gb rt swap_free) (\<lambda>free_gb.
       Inr [(''memory_used_percent'', mem_percent),
            (''memory_available_gb'', PyFloat available_gb),
            (''swap_used_percent'', swap_percent),
            (''swap_free_gb'', PyFloat free_gb)]))))"

definition get_memory_metrics :: "runtime \<Rightarrow> env \<Rightarrow> log \<Rightarrow> pynum pydict \<times> log" where
  "get_memory_metrics rt e lg =
     (case memory_sample rt e of
        Inr d \<Rightarrow> (d, lg)
      | Inl ex \<Rightarrow> ([], lg @ [(ERROR, ErrorMemory ex)]))"

text \<open>
  The call \<^verbatim>\<open>subprocess.run(['systemctl', 'is-active', service], capture_output=True,
  text=True)\<close>: no \<^verbatim>\<open>timeout\<close> keyword is passed.
\<close>

definition service_query :: "string \<Rightarrow> run_call" where
  "service_query service =
     \<lparr>argv = [''systemctl'', ''is-active'', service],
      capture_output = True, text_mode = True, timeout = None\<rparr>"

text \<open>The body of the \<^verbatim>\<open>for\<close> loop of \<^verbatim>\<open>check_dev_services\<close>, for one service.\<close>

definition check_service :: "env \<Rightarrow> string \<Rightarrow> bool pydict \<times> log \<Rightarrow> bool pydict \<times> log" where
  "check_service e service st =
     (case subprocess_run e (service_query service) of
        Inr stdout \<Rightarrow>
          (dict_setitem (fst st) service (py_strip stdout = pystr ''active''), snd st)
      | Inl ex \<Rightarrow>
          (dict_setitem (fst st) service False,
           snd st @ [(ERROR, ErrorService service ex)]))"

fun check_services :: "env \<Rightarrow> string list \<Rightarrow> bool pydict \<times> log \<Rightarrow> bool pydict \<times> log" where
  "check_services e [] st = st"
| "check_services e (service # rest) st = check_services e rest (check_service e service st)"

definition check_dev_services :: "env \<Rightarrow> log \<Rightarrow> bool pydict \<times> log" where
  "check_dev_services e lg = check_services e dev_services ([], lg)"

definition get_all_metrics :: "runtime \<Rightarrow> env \<Rightarrow> log \<Rightarrow> snapshot \<times> log" where
  "get_all_metrics rt e lg =
     (let (c, lg1) = get_cpu_metrics rt e lg;
          (m, lg2) = get_memory_metrics rt e lg1;
          (t, lg3) = get_temperature rt e lg2;
          (s, lg4) = check_dev_services e lg3
      in (\<lparr>timestamp = now_isoformat e, cpu = c, memory = m, temperature = t,
           services = s\<rparr>, lg4))"

section \<open>The monitoring loop (\<^verbatim>\<open>start_monitoring\<close>)\<close>

text \<open>
  How one pass through the body of \<^verbatim>\<open>while True\<close> ends: it reaches the next iteration, or
  an \<^verbatim>\<open>Exception\<close> leaves the loop, or \<^verbatim>\<open>KeyboardInterrupt\<close> does.
  \<^verbatim>\<open>time.sleep\<close> raises \<^verbatim>\<open>ValueError\<close> on a negative interval.
\<close>

datatype tick_end = Continues | Raised py_exception | Interrupted

definition tick :: "runtime \<Rightarrow> int \<Rightarrow> env \<Rightarrow> log \<Rightarrow> tick_end \<times> log" where
  "tick rt interval e lg =
     (let (m, lg1) = get_all_metrics rt e lg;
          lg2 = lg1 @ [(INFO, CurrentMetrics m)]
      in case evaluate_alerts m lg2 of
           (Inl ex, lg3) \<Rightarrow> (Raised ex, lg3)
         | (Inr u, lg3) \<Rightarrow>
             if interval < 0 then (Raised ValueError, lg3)
             else if interrupted e then (Interrupted, lg3)
             else (Continues, lg3))"

text \<open>
  The loop over the ticks the host lives through. The list is the fuel: when it is used
  up the loop is still running (\<open>Running\<close>); the two \<^verbatim>\<open>except\<close> clauses stand outside
  \<^verbatim>\<open>while True\<close>, so either of them ends the function.
\<close>

datatype run_state = Running | StoppedByUser | Failed py_exception

fun monitor_loop :: "runtime \<Rightarrow> int \<Rightarrow> env list \<Rightarrow> log \<Rightarrow> tick_end \<times> log" where
  "monitor_loop rt interval [] lg = (Continues, lg)"
| "monitor_loop rt interval (e # es) lg =
     (case tick rt interval e lg of
        (Continues, lg') \<Rightarrow> monitor_loop rt interval es lg'
      | (Raised ex, lg') \<Rightarrow> (Raised ex, lg')
      | (Interrupted, lg') \<Rightarrow> (Interrupted, lg'))"

definition start_monitoring :: "runtime \<Rightarrow> int \<Rightarrow> env list \<Rightarrow> log \<Rightarrow> run_state \<times> log" where
  "start_monitoring rt interval es lg =
     (case monitor_loop rt interval es (lg @ [(INFO, StartingMonitoring)]) of
        (Continues, lg') \<Rightarrow> (Running, lg')
      | (Interrupted, lg') \<Rightarrow> (StoppedByUser, lg' @ [(INFO, MonitoringStopped)])
      | (Raised ex, lg') \<Rightarrow> (Failed ex, lg' @ [(ERROR, MonitoringError ex)]))"

section \<open>A host and a runtime for the examples\<close>

text \<open>
  An instance of the runtime: on finite values it computes exactly, as Python does
  whenever the operands and the result are doubles, and it raises on everything else.
  \<open>float_of_str\<close> reads a string of ASCII digits. The theorems below hold for every
  runtime; this one only serves the concrete runs.
\<close>

definition round_half_even :: "rat \<Rightarrow> int" where
  "round_half_even q =
     (let f = \<lfloor>q\<rfloor>; r = q - of_int f
      in if r < 1 / 2 then f else if 1 / 2 < r then f + 1
         else if even f then f else f + 1)"

fun exact_value :: "pynum \<Rightarrow> pyfloat" where
  "exact_value (PyInt i) = Finite (of_int i)"
| "exact_value (PyFloat x) = x"

fun exact_div :: "pyfloat \<Rightarrow> pyfloat \<Rightarrow> py_exception + pyfloat" where
  "exact_div (Finite x) (Finite y) =
     (if y = 0 then Inl ZeroDivisionError else Inr (Finite (x / y)))"
| "exact_div x y = Inl OverflowError"

fun exact_mult :: "pyfloat \<Rightarrow> pyfloat \<Rightarrow> py_exception + pyfloat" where
  "exact_mult (Finite x) (Finite y) = Inr (Finite (x * y))"
| "exact_mult x y = Inl OverflowError"

fun exact_round :: "pyfloat \<Rightarrow> int \<Rightarrow> py_exception + pyfloat" where
  "exact_round (Finite x) n =
     (if n < 0 then Inl OverflowError
      else Inr (Finite (of_int (round_half_even (x * 10 ^ nat n)) / 10 ^ nat n)))"
| "exact_round x n = Inl OverflowError"

definition digits_value :: "pystr \<Rightarrow> nat" where
  "digits_value s = fold (\<lambda>c a. 10 * a + (c - 48)) s 0"

definition exact_float_of_str :: "pystr \<Rightarrow> py_exception + pyfloat" where
  "exact_float_of_str s =
     (if s \<noteq> [] \<and> list_all (\<lambda>c. 48 \<le> c \<and> c \<le> 57) s
      then Inr (Finite (of_nat (digits_value s))) else Inl ValueError)"

definition exact_runtime :: runtime where
  "exact_runtime =
     \<lparr>float_of_str = exact_float_of_str,
      truediv = (\<lambda>a b. exact_div (exact_value a) (exact_value b)),
      mult = (\<lambda>x n. exact_mult x (exact_value n)),
      round_ndigits = exact_round\<rparr>"

text \<open>
  A host with 4 cores under load 8.0, 2.0, 1.0, no clock frequency, half of its memory
  used, 45000 in the temperature file, and every service active but \<^verbatim>\<open>docker\<close>.
\<close>

definition healthy_host :: env where
  "healthy_host =
     \<lparr>now_isoformat = ''2024-01-01T00:00:00'',
      getloadavg = Inr (Finite 8, Finite 2, Finite 1),
      cpu_count = Inr (Some 4),
      cpu_percent = Inr (Finite 25),
      cpu_freq = Inr None,
      virtual_memory = Inr (PyFloat (Finite 50), 2 * 1024 ^ 3),
      swap_memory = Inr (PyFloat (Finite 0), 1024 ^ 3),
      read_temp_path = Inr (pystr ''45000'' @ [10]),
      subprocess_run =
        (\<lambda>c. if argv c = [''systemctl'', ''is-active'', ''docker'']
             then Inr (pystr ''inactive'' @ [10]) else Inr (pystr ''active'' @ [10])),
      interrupted = False\<rparr>"

text \<open>The same host when \<^verbatim>\<open>psutil.virtual_memory()\<close> raises.\<close>

definition memory_down_host :: env where
  "memory_down_host = healthy_host\<lparr>virtual_memory := Inl (OSError ''virtual_memory'')\<rparr>"

text \<open>The same host when Ctrl-C is pressed while the loop sleeps.\<close>

definition interrupted_host :: env where
  "interrupted_host = healthy_host\<lparr>interrupted := True\<rparr>"

text \<open>The same host when the \<^verbatim>\<open>systemctl\<close> query for \<^verbatim>\<open>nginx\<close> raises.\<close>

definition query_failing_host :: env where
  "query_failing_host =
     healthy_host\<lparr>subprocess_run :=
       (\<lambda>c. if argv c = [''systemctl'', ''is-active'', ''nginx'']
            then Inl (OSError ''systemctl'') else subprocess_run healthy_host c)\<rparr>"

text \<open>The snapshot of scenario C of the specification, with the memory sample absent.\<close>

definition memory_absent_snapshot :: snapshot where
  "memory_absent_snapshot =
     \<lparr>timestamp = ''2024-01-01T00:00:00'', cpu = [], memory = [], temperature = None,
      services = [(''ssh'', True), (''docker'', False), (''nginx'', False),
                  (''postgresql'', True)]\<rparr>"

text \<open>
  The entry the specification gives a service: true exactly when its query returned and
  the trimmed output is \<^verbatim>\<open>active\<close>, false when the query raised.
\<close>

definition service_active :: "env \<Rightarrow> string \<Rightarrow> bool" where
  "service_active e service =
     (case subprocess_run e (service_query service) of
        Inr stdout \<Rightarrow> py_strip stdout = pystr ''active''
      | Inl ex \<Rightarrow> False)"

section \<open>The alert rules write to the log and read nothing from it\<close>

lemma temperature_rule_append: "temperature_rule m lg = lg @ temperature_rule m []"
  by (simp add: temperature_rule_def split: option.splits)

lemma services_rule_append: "services_rule d lg = lg @ services_rule d []"
proof (induction d arbitrary: lg)
  case Nil
  show ?case by simp
next
  case (Cons p d)
  obtain s st where p: "p = (s, st)" by (cases p)
  show ?case
  proof (cases st)
    case True
    with p Cons.IH [of lg] show ?thesis by simp
  next
    case False
    have "services_rule (p # d) lg = services_rule d (lg @ [(WARNING, ServiceNotRunning s)])"
      using p False by simp
    also have "\<dots> = (lg @ [(WARNING, ServiceNotRunning s)]) @ services_rule d []"
      by (rule Cons.IH)
    also have "\<dots> = lg @ services_rule d [(WARNING, ServiceNotRunning s)]"
      using Cons.IH [of "[(WARNING, ServiceNotRunning s)]"] by simp
    also have "\<dots> = lg @ services_rule (p # d) []"
      using p False by simp
    finally show ?thesis .
  qed
qed

lemma services_rule_eq:
  "services_rule d [] =
     map (\<lambda>p. (WARNING, ServiceNotRunning (fst p))) (filter (\<lambda>p. \<not> snd p) d)"
proof (induction d)
  case Nil
  show ?case by simp
next
  case (Cons p d)
  obtain s st where p: "p = (s, st)" by (cases p)
  show ?case
    using Cons.IH p services_rule_append [of d "[(WARNING, ServiceNotRunning s)]"]
    by (cases st) simp_all
qed

lemma evaluate_alerts_append:
  "evaluate_alerts m lg = (fst (evaluate_alerts m []), lg @ alerts_of m)"
proof (cases "dict_getitem (memory m) ''memory_used_percent''")
  case (Inl ex)
  then show ?thesis
    using temperature_rule_append [of m lg]
    by (simp add: evaluate_alerts_def alerts_of_def memory_rule_def)
next
  case (Inr v)
  then show ?thesis
    using temperature_rule_append [of m lg]
      services_rule_append [of "services m" "temperature_rule m lg"]
      services_rule_append [of "services m" "temperature_rule m []"]
      services_rule_append [of "services m" "temperature_rule m lg @ [(WARNING, HighMemory)]"]
      services_rule_append [of "services m" "temperature_rule m [] @ [(WARNING, HighMemory)]"]
    by (simp add: evaluate_alerts_def alerts_of_def memory_rule_def)
qed

text \<open>The alerts of a snapshot, rule by rule.\<close>

lemma alerts_of_eq:
  "alerts_of m =
     temperature_rule m [] @
     (case dict_getitem (memory m) ''memory_used_percent'' of
        Inl ex \<Rightarrow> []
      | Inr v \<Rightarrow> (if num_gt_int v 90 then [(WARNING, HighMemory)] else []) @
                 services_rule (services m) [])"
proof (cases "dict_getitem (memory m) ''memory_used_percent''")
  case (Inl ex)
  then show ?thesis by (simp add: evaluate_alerts_def alerts_of_def memory_rule_def)
next
  case (Inr v)
  then show ?thesis
    using services_rule_append [of "services m" "temperature_rule m []"]
      services_rule_append [of "services m" "temperature_rule m [] @ [(WARNING, HighMemory)]"]
    by (simp add: evaluate_alerts_def alerts_of_def memory_rule_def)
qed

lemma evaluate_alerts_result:
  "fst (evaluate_alerts m lg) =
     (case dict_getitem (memory m) ''memory_used_percent'' of
        Inl ex \<Rightarrow> Inl ex | Inr v \<Rightarrow> Inr ())"
  by (simp add: evaluate_alerts_def memory_rule_def split: sum.splits)

lemma float_gt_int_truthy: "0 \<le> k \<Longrightarrow> float_gt_int t k \<Longrightarrow> float_truthy t"
  by (cases t) auto

lemma filter_temp_services: "filter is_high_temperature (services_rule d []) = []"
  by (simp add: services_rule_eq filter_map o_def is_high_temperature_def)

lemma high_temperature_alerts:
  "filter is_high_temperature (alerts_of m) =
     (case temperature m of
        None \<Rightarrow> []
      | Some t \<Rightarrow> if float_gt_int t 80 then [(WARNING, HighTemperature t)] else [])"
proof -
  have rest: "filter is_high_temperature
     (case dict_getitem (memory m) ''memory_used_percent'' of
        Inl ex \<Rightarrow> []
      | Inr v \<Rightarrow> (if num_gt_int v 90 then [(WARNING, HighMemory)] else []) @
                 services_rule (services m) []) = []"
    by (simp add: filter_temp_services is_high_temperature_def split: sum.splits)
  have "filter is_high_temperature (temperature_rule m []) =
     (case temperature m of
        None \<Rightarrow> []
      | Some t \<Rightarrow> if float_gt_int t 80 then [(WARNING, HighTemperature t)] else [])"
    using float_gt_int_truthy [of 80]
    by (auto simp: temperature_rule_def is_high_temperature_def split: option.splits)
  then show ?thesis
    unfolding alerts_of_eq [of m] filter_append rest by simp
qed

text \<open>
  With the memory sample present, the service rule writes one warning for each service
  that is down, in the order of the dict, and none for the others.
\<close>

lemma service_alerts_memory_present:
  assumes "dict_getitem (memory m) ''memory_used_percent'' = Inr v"
  shows "filter is_service_down (alerts_of m) =
     map (\<lambda>p. (WARNING, ServiceNotRunning (fst p))) (filter (\<lambda>p. \<not> snd p) (services m))"
proof -
  have t: "filter is_service_down (temperature_rule m []) = []"
    by (simp add: temperature_rule_def is_service_down_def split: option.splits)
  have s: "filter is_service_down (services_rule (services m) []) = services_rule (services m) []"
    by (simp add: services_rule_eq filter_map o_def is_service_down_def)
  show ?thesis
    unfolding alerts_of_eq [of m] filter_append t
    using assms s by (simp add: is_service_down_def services_rule_eq)
qed

lemma evaluate_alerts_repeat:
  "((\<lambda>l. snd (evaluate_alerts m l)) ^^ n) lg = lg @ concat (replicate n (alerts_of m))"
proof (induction n arbitrary: lg)
  case 0
  show ?case by simp
next
  case (Suc n)
  have "((\<lambda>l. snd (evaluate_alerts m l)) ^^ Suc n) lg =
      ((\<lambda>l. snd (evaluate_alerts m l)) ^^ n) (snd (evaluate_alerts m lg))"
    by (simp only: funpow_Suc_right o_apply)
  also have "\<dots> = snd (evaluate_alerts m lg) @ concat (replicate n (alerts_of m))"
    by (rule Suc.IH)
  also have "snd (evaluate_alerts m lg) = lg @ alerts_of m"
    using evaluate_alerts_append [of m lg] by simp
  finally show ?case by simp
qed

section \<open>The claims about the alert rules\<close>

text \<open>
  C5. For every snapshot, the warnings of the temperature rule among the alerts are: one,
  carrying the value, when the temperature is present and greater than 80, and none
  otherwise. The double that the literal \<^verbatim>\<open>85.3\<close> denotes is
  6002453878354739 / 2^46; a snapshot with that temperature gets exactly one such alert,
  and one with 80.0 gets none.
\<close>

theorem C5_high_temperature:
  "filter is_high_temperature (alerts_of m) =
     (case temperature m of
        None \<Rightarrow> []
      | Some t \<Rightarrow> if float_gt_int t 80 then [(WARNING, HighTemperature t)] else [])
   \<and> filter is_high_temperature
       (alerts_of (m\<lparr>temperature := Some (Finite (6002453878354739 / 70368744177664))\<rparr>)) =
       [(WARNING, HighTemperature (Finite (6002453878354739 / 70368744177664)))]
   \<and> filter is_high_temperature (alerts_of (m\<lparr>temperature := Some (Finite 80)\<rparr>)) = []"
  by (simp add: high_temperature_alerts)

text \<open>
  C9. Evaluating a snapshot on any log gives the result of evaluating it on the empty log
  and appends the same alerts; evaluating it \<open>n\<close> times in a row appends that same
  sequence \<open>n\<close> times. The log already written has no influence.
\<close>

theorem C9_evaluation_deterministic:
  "fst (evaluate_alerts m lg) = fst (evaluate_alerts m [])
   \<and> snd (evaluate_alerts m lg) = lg @ alerts_of m
   \<and> ((\<lambda>l. snd (evaluate_alerts m l)) ^^ n) lg = lg @ concat (replicate n (alerts_of m))"
proof -
  have a: "evaluate_alerts m lg = (fst (evaluate_alerts m []), lg @ alerts_of m)"
    by (rule evaluate_alerts_append)
  have "fst (evaluate_alerts m lg) = fst (evaluate_alerts m [])"
    by (subst a) simp
  moreover have "snd (evaluate_alerts m lg) = lg @ alerts_of m"
    by (subst a) simp
  ultimately show ?thesis
    using evaluate_alerts_repeat by blast
qed

text \<open>
  C6, at the snapshot of scenario C with the memory sample absent: the subscript of the
  memory rule raises before the service loop is reached, so no warning is written for
  \<^verbatim>\<open>docker\<close> or \<^verbatim>\<open>nginx\<close>, which are down.
\<close>

theorem C6_memory_absent_no_service_alerts:
  "evaluate_alerts memory_absent_snapshot [] = (Inl (KeyError ''memory_used_percent''), [])
   \<and> filter is_service_down (alerts_of memory_absent_snapshot) = []"
  by (simp add: alerts_of_def evaluate_alerts_def memory_rule_def temperature_rule_def
      dict_getitem_def memory_absent_snapshot_def)

section \<open>The collector\<close>

lemma dict_setitem_fresh: "k \<notin> fst ` set d \<Longrightarrow> dict_setitem d k v = d @ [(k, v)]"
  by (induction d) auto

lemma check_service_fst:
  "service \<notin> fst ` set d \<Longrightarrow>
     fst (check_service e service (d, lg)) = d @ [(service, service_active e service)]"
  by (simp add: check_service_def service_active_def dict_setitem_fresh split: sum.splits)

lemma check_services_fst:
  "distinct ss \<Longrightarrow> set ss \<inter> fst ` set d = {} \<Longrightarrow>
     fst (check_services e ss (d, lg)) = d @ map (\<lambda>s. (s, service_active e s)) ss"
proof (induction ss arbitrary: d lg)
  case Nil
  show ?case by simp
next
  case (Cons s ss)
  obtain d' lg' where st: "check_service e s (d, lg) = (d', lg')"
    by (cases "check_service e s (d, lg)")
  have fresh: "s \<notin> fst ` set d"
    using Cons.prems(2) by auto
  have d': "d' = d @ [(s, service_active e s)]"
    using check_service_fst [OF fresh, of e lg] st by simp
  have "distinct ss"
    using Cons.prems(1) by simp
  moreover have "set ss \<inter> fst ` set d' = {}"
    using Cons.prems d' by auto
  ultimately have "fst (check_services e ss (d', lg')) =
      d' @ map (\<lambda>s. (s, service_active e s)) ss"
    by (rule Cons.IH)
  then show ?case
    using st d' by simp
qed

lemma check_dev_services_fst:
  "fst (check_dev_services e lg) = map (\<lambda>s. (s, service_active e s)) dev_services"
proof -
  have "distinct dev_services"
    by (simp add: dev_services_def)
  then have "fst (check_services e dev_services ([], lg)) =
      [] @ map (\<lambda>s. (s, service_active e s)) dev_services"
    by (rule check_services_fst) simp
  then show ?thesis
    by (simp add: check_dev_services_def)
qed

lemma check_service_log:
  "snd (check_service e s (d, lg)) = lg @ snd (check_service e s (d, []))"
  by (simp add: check_service_def split: sum.splits)

lemma check_service_fst_log:
  "fst (check_service e s (d, lg)) = fst (check_service e s (d, []))"
  by (simp add: check_service_def split: sum.splits)

lemma check_services_log:
  "check_services e ss (d, lg) =
     (fst (check_services e ss (d, [])), lg @ snd (check_services e ss (d, [])))"
proof (induction ss arbitrary: d lg)
  case Nil
  show ?case by simp
next
  case (Cons s ss)
  obtain d' out where st: "check_service e s (d, []) = (d', out)"
    by (cases "check_service e s (d, [])")
  have st': "check_service e s (d, lg) = (d', lg @ out)"
    using st check_service_log [of e s d lg] check_service_fst_log [of e s d lg]
    by (simp add: prod_eq_iff)
  have a: "check_services e ss (d', lg @ out) =
      (fst (check_services e ss (d', [])), (lg @ out) @ snd (check_services e ss (d', [])))"
    by (rule Cons.IH)
  have b: "check_services e ss (d', out) =
      (fst (check_services e ss (d', [])), out @ snd (check_services e ss (d', [])))"
    by (rule Cons.IH)
  show ?case
    by (simp add: st st' a b)
qed

lemma get_cpu_metrics_eq:
  "get_cpu_metrics rt e lg =
     (case cpu_sample rt e of Inr d \<Rightarrow> d | Inl ex \<Rightarrow> [],
      lg @ (case cpu_sample rt e of Inr d \<Rightarrow> [] | Inl ex \<Rightarrow> [(ERROR, ErrorCpu ex)]))"
  by (simp add: get_cpu_metrics_def split: sum.splits)

lemma get_memory_metrics_eq:
  "get_memory_metrics rt e lg =
     (case memory_sample rt e of Inr d \<Rightarrow> d | Inl ex \<Rightarrow> [],
      lg @ (case memory_sample rt e of Inr d \<Rightarrow> [] | Inl ex \<Rightarrow> [(ERROR, ErrorMemory ex)]))"
  by (simp add: get_memory_metrics_def split: sum.splits)

lemma get_temperature_eq:
  "get_temperature rt e lg =
     (case temperature_sample rt e of Inr t \<Rightarrow> Some t | Inl ex \<Rightarrow> None,
      lg @ (case temperature_sample rt e of
              Inr t \<Rightarrow> [] | Inl ex \<Rightarrow> [(ERROR, ErrorTemperature ex)]))"
  by (simp add: get_temperature_def split: sum.splits)

lemma check_dev_services_eq:
  "check_dev_services e lg =
     (map (\<lambda>s. (s, service_active e s)) dev_services, lg @ snd (check_dev_services e []))"
  using check_services_log [of e dev_services "[]" lg] check_dev_services_fst [of e "[]"]
  by (simp add: check_dev_services_def)


lemma get_all_metrics_eq:
  "get_all_metrics rt e lg =
     (\<lparr>timestamp = now_isoformat e,
       cpu = (case cpu_sample rt e of Inr d \<Rightarrow> d | Inl ex \<Rightarrow> []),
       memory = (case memory_sample rt e of Inr d \<Rightarrow> d | Inl ex \<Rightarrow> []),
       temperature = (case temperature_sample rt e of Inr t \<Rightarrow> Some t | Inl ex \<Rightarrow> None),
       services = map (\<lambda>s. (s, service_active e s)) dev_services\<rparr>,
      lg @ snd (get_all_metrics rt e []))"
proof -
  have "get_all_metrics rt e l =
     (\<lparr>timestamp = now_isoformat e,
       cpu = (case cpu_sample rt e of Inr d \<Rightarrow> d | Inl ex \<Rightarrow> []),
       memory = (case memory_sample rt e of Inr d \<Rightarrow> d | Inl ex \<Rightarrow> []),
       temperature = (case temperature_sample rt e of Inr t \<Rightarrow> Some t | Inl ex \<Rightarrow> None),
       services = map (\<lambda>s. (s, service_active e s)) dev_services\<rparr>,
      l @ (case cpu_sample rt e of Inr d \<Rightarrow> [] | Inl ex \<Rightarrow> [(ERROR, ErrorCpu ex)])
        @ (case memory_sample rt e of Inr d \<Rightarrow> [] | Inl ex \<Rightarrow> [(ERROR, ErrorMemory ex)])
        @ (case temperature_sample rt e of
             Inr t \<Rightarrow> [] | Inl ex \<Rightarrow> [(ERROR, ErrorTemperature ex)])
        @ snd (check_dev_services e []))" for l
    unfolding get_all_metrics_def
    apply (subst get_cpu_metrics_eq)
    apply (subst get_memory_metrics_eq)
    apply (subst get_temperature_eq)
    apply (subst check_dev_services_eq)
    apply (simp add: Let_def)
    done
  from this [of lg] this [of "[]"] show ?thesis by simp
qed

lemma map_of_services:
  "s \<in> set dev_services \<Longrightarrow>
     map_of (fst (check_dev_services e lg)) s = Some (service_active e s)"
  by (simp add: check_dev_services_fst map_of_map_restrict)

text \<open>
  C4. \<open>get_all_metrics\<close> has no exceptional result: every source keeps its whole body
  inside \<^verbatim>\<open>try ... except Exception\<close>. Whatever the sources answer, the snapshot it returns
  carries the timestamp, and each field is the sample of its source, or the empty dict
  (CPU, memory), \<^verbatim>\<open>None\<close> (temperature) or \<open>False\<close> (a service) when that source raised.
\<close>

theorem C4_collector_never_fails:
  "fst (get_all_metrics rt e lg) =
     \<lparr>timestamp = now_isoformat e,
      cpu = (case cpu_sample rt e of Inr d \<Rightarrow> d | Inl ex \<Rightarrow> []),
      memory = (case memory_sample rt e of Inr d \<Rightarrow> d | Inl ex \<Rightarrow> []),
      temperature = (case temperature_sample rt e of Inr t \<Rightarrow> Some t | Inl ex \<Rightarrow> None),
      services =
        map (\<lambda>s. (s, case subprocess_run e (service_query s) of
                        Inr stdout \<Rightarrow> py_strip stdout = pystr ''active''
                      | Inl ex \<Rightarrow> False)) dev_services\<rparr>"
  by (subst get_all_metrics_eq) (simp add: service_active_def)

text \<open>
  C10. Whatever the queries answer, \<open>check_dev_services\<close> returns one entry for each of
  \<^verbatim>\<open>ssh\<close>, \<^verbatim>\<open>docker\<close>, \<^verbatim>\<open>nginx\<close>, \<^verbatim>\<open>postgresql\<close>, in that order; a query that raised gives
  \<open>False\<close> for its service, and the entry of a service depends on the answer to its own
  query only.
\<close>

theorem C10_service_mapping:
  "fst (check_dev_services e lg) =
     map (\<lambda>s. (s, case subprocess_run e (service_query s) of
                     Inr stdout \<Rightarrow> py_strip stdout = pystr ''active''
                   | Inl ex \<Rightarrow> False)) dev_services
   \<and> map fst (fst (check_dev_services e lg)) = [''ssh'', ''docker'', ''nginx'', ''postgresql'']
   \<and> (s \<in> set dev_services \<longrightarrow> subprocess_run e (service_query s) = Inl ex \<longrightarrow>
        map_of (fst (check_dev_services e lg)) s = Some False)
   \<and> (s \<in> set dev_services \<longrightarrow>
        subprocess_run e' (service_query s) = subprocess_run e (service_query s) \<longrightarrow>
        map_of (fst (check_dev_services e' lg')) s = map_of (fst (check_dev_services e lg)) s)"
proof -
  have a: "fst (check_dev_services e lg) =
     map (\<lambda>s. (s, case subprocess_run e (service_query s) of
                     Inr stdout \<Rightarrow> py_strip stdout = pystr ''active''
                   | Inl ex \<Rightarrow> False)) dev_services"
    by (simp add: check_dev_services_fst service_active_def)
  have b: "map fst (fst (check_dev_services e lg)) = [''ssh'', ''docker'', ''nginx'', ''postgresql'']"
    by (simp add: check_dev_services_fst o_def dev_services_def)
  have c: "s \<in> set dev_services \<longrightarrow> subprocess_run e (service_query s) = Inl ex \<longrightarrow>
        map_of (fst (check_dev_services e lg)) s = Some False"
    by (simp add: map_of_services service_active_def)
  have d: "s \<in> set dev_services \<longrightarrow>
        subprocess_run e' (service_query s) = subprocess_run e (service_query s) \<longrightarrow>
        map_of (fst (check_dev_services e' lg')) s = map_of (fst (check_dev_services e lg)) s"
    by (simp add: map_of_services service_active_def)
  from a b c d show ?thesis by blast
qed

text \<open>
  The host on which the \<^verbatim>\<open>nginx\<close> query raises: \<^verbatim>\<open>nginx\<close> is false, the entry of \<^verbatim>\<open>ssh\<close>
  is what it is on the healthy host.
\<close>

theorem C10_service_mapping_witness:
  "map_of (fst (check_dev_services query_failing_host [])) ''nginx'' = Some False
   \<and> map_of (fst (check_dev_services query_failing_host [])) ''ssh'' =
       map_of (fst (check_dev_services healthy_host [])) ''ssh''
   \<and> fst (check_dev_services query_failing_host []) =
       [(''ssh'', True), (''docker'', False), (''nginx'', False), (''postgresql'', True)]"
proof -
  have n: "''nginx'' \<in> set dev_services" and s: "''ssh'' \<in> set dev_services"
    by (simp_all add: dev_services_def)
  have q: "subprocess_run query_failing_host (service_query ''nginx'') = Inl (OSError ''systemctl'')"
    by (simp add: query_failing_host_def service_query_def)
  have r: "subprocess_run query_failing_host (service_query ''ssh'') =
      subprocess_run healthy_host (service_query ''ssh'')"
    by (simp add: query_failing_host_def service_query_def)
  have 1: "map_of (fst (check_dev_services query_failing_host [])) ''nginx'' = Some False"
    using C10_service_mapping [where e = query_failing_host and s = "''nginx''"
        and ex = "OSError ''systemctl''" and lg = "[]"] n q by blast
  have 2: "map_of (fst (check_dev_services query_failing_host [])) ''ssh'' =
       map_of (fst (check_dev_services healthy_host [])) ''ssh''"
    using C10_service_mapping [where e = healthy_host and e' = query_failing_host
        and s = "''ssh''" and lg = "[]" and lg' = "[]"] s r by blast
  have 3: "fst (check_dev_services query_failing_host []) =
       [(''ssh'', True), (''docker'', False), (''nginx'', False), (''postgresql'', True)]"
    using C10_service_mapping [where e = query_failing_host and lg = "[]"]
    by (simp add: dev_services_def query_failing_host_def healthy_host_def service_query_def
        py_strip_def pystr_def py_isspace_def)
  from 1 2 3 show ?thesis by blast
qed

text \<open>
  C3, as stated, fails: the query for \<^verbatim>\<open>docker\<close>, one of the configured services, is
  invoked with no timeout.
\<close>

theorem C3_no_timeout_counterexample:
  "''docker'' \<in> set dev_services \<and> timeout (service_query ''docker'') = None"
  by (simp add: dev_services_def service_query_def)

text \<open>
  C3, amended. Every per-service query is the call of \<^verbatim>\<open>systemctl is-active\<close> with no
  timeout, and a query that raises maps its service to \<open>False\<close>.
\<close>

theorem C3_queries_without_timeout:
  "timeout (service_query service) = None
   \<and> argv (service_query service) = [''systemctl'', ''is-active'', service]
   \<and> (service \<in> set dev_services \<longrightarrow> subprocess_run e (service_query service) = Inl ex \<longrightarrow>
        map_of (fst (check_dev_services e lg)) service = Some False)"
  by (simp add: service_query_def map_of_services service_active_def)

text \<open>
  The host on which the \<^verbatim>\<open>nginx\<close> query raises.
\<close>

theorem C3_queries_without_timeout_witness:
  "timeout (service_query ''nginx'') = None
   \<and> map_of (fst (check_dev_services query_failing_host [])) ''nginx'' = Some False"
proof -
  have n: "''nginx'' \<in> set dev_services"
    by (simp add: dev_services_def)
  have q: "subprocess_run query_failing_host (service_query ''nginx'') = Inl (OSError ''systemctl'')"
    by (simp add: query_failing_host_def service_query_def)
  show ?thesis
    using C3_queries_without_timeout [where service = "''nginx''" and e = query_failing_host
        and ex = "OSError ''systemctl''" and lg = "[]"] n q by blast
qed

section \<open>The temperature and CPU sources\<close>





text \<open>
  C8. When every call of the CPU sample returns, each load figure is the load average
  divided by the core count, multiplied by 100 and rounded to 2 digits, with no upper
  bound applied, and \<^verbatim>\<open>cpu_freq\<close> is \<^verbatim>\<open>.current\<close> of the clock frequency, or the int 0 when
  \<^verbatim>\<open>psutil.cpu_freq()\<close> returns \<^verbatim>\<open>None\<close>. Nothing is logged.
\<close>

theorem C8_cpu_metrics:
  assumes "getloadavg e = Inr (load1, load5, load15)"
    and "cpu_count e = Inr (Some n)"
    and "cpu_percent e = Inr percent"
    and "cpu_freq e = Inr freq"
    and "load_percent rt load1 (Some n) = Inr l1"
    and "load_percent rt load5 (Some n) = Inr l5"
    and "load_percent rt load15 (Some n) = Inr l15"
  shows "get_cpu_metrics rt e lg =
      ([(''cpu_percent'', PyFloat percent),
        (''load_1min'', PyFloat l1),
        (''load_5min'', PyFloat l5),
        (''load_15min'', PyFloat l15),
        (''cpu_freq'', case freq of Some current \<Rightarrow> current | None \<Rightarrow> PyInt 0)], lg)
    \<and> load_percent rt load (Some n) =
        (case truediv rt (PyFloat load) (PyInt n) of
           Inl ex \<Rightarrow> Inl ex
         | Inr q \<Rightarrow>
             (case mult rt q (PyInt 100) of
                Inl ex \<Rightarrow> Inl ex
              | Inr p \<Rightarrow> round_ndigits rt p 2))"
proof -
  have "cpu_sample rt e =
      Inr [(''cpu_percent'', PyFloat percent),
        (''load_1min'', PyFloat l1),
        (''load_5min'', PyFloat l5),
        (''load_15min'', PyFloat l15),
        (''cpu_freq'', case freq of Some current \<Rightarrow> current | None \<Rightarrow> PyInt 0)]"
    unfolding cpu_sample_def using assms by (simp add: try_bind_def)
  then have a: "get_cpu_metrics rt e lg =
      ([(''cpu_percent'', PyFloat percent),
        (''load_1min'', PyFloat l1),
        (''load_5min'', PyFloat l5),
        (''load_15min'', PyFloat l15),
        (''cpu_freq'', case freq of Some current \<Rightarrow> current | None \<Rightarrow> PyInt 0)], lg)"
    by (simp add: get_cpu_metrics_def)
  have b: "load_percent rt load (Some n) =
        (case truediv rt (PyFloat load) (PyInt n) of
           Inl ex \<Rightarrow> Inl ex
         | Inr q \<Rightarrow>
             (case mult rt q (PyInt 100) of
                Inl ex \<Rightarrow> Inl ex
              | Inr p \<Rightarrow> round_ndigits rt p 2))"
    by (simp add: load_percent_def try_bind_def)
  from a b show ?thesis by blast
qed

lemma exact_load_8: "load_percent exact_runtime (Finite 8) (Some 4) = Inr (Finite 200)"
  by (simp add: load_percent_def try_bind_def exact_runtime_def round_half_even_def)

lemma exact_load_2: "load_percent exact_runtime (Finite 2) (Some 4) = Inr (Finite 50)"
  by (simp add: load_percent_def try_bind_def exact_runtime_def round_half_even_def)

lemma exact_load_1: "load_percent exact_runtime (Finite 1) (Some 4) = Inr (Finite 25)"
  by (simp add: load_percent_def try_bind_def exact_runtime_def round_half_even_def)

text \<open>
  The example host: load 8.0 on 4 cores is reported as 200.0, and the missing clock
  frequency as 0.
\<close>

theorem C8_cpu_metrics_witness:
  "get_cpu_metrics exact_runtime healthy_host [] =
      ([(''cpu_percent'', PyFloat (Finite 25)),
        (''load_1min'', PyFloat (Finite 200)),
        (''load_5min'', PyFloat (Finite 50)),
        (''load_15min'', PyFloat (Finite 25)),
        (''cpu_freq'', PyInt 0)], [])"
proof -
  have h: "getloadavg healthy_host = Inr (Finite 8, Finite 2, Finite 1)"
    "cpu_count healthy_host = Inr (Some 4)"
    "cpu_percent healthy_host = Inr (Finite 25)"
    "cpu_freq healthy_host = Inr None"
    by (simp_all add: healthy_host_def)
  show ?thesis
    using C8_cpu_metrics [OF h exact_load_8 exact_load_2 exact_load_1, of "[]"] by simp
qed

section \<open>The monitoring loop\<close>

lemma tick_eq:
  "tick rt iv e lg =
     (case fst (evaluate_alerts (fst (get_all_metrics rt e [])) []) of
        Inl ex \<Rightarrow> Raised ex
      | Inr u \<Rightarrow> if iv < 0 then Raised ValueError
                 else if interrupted e then Interrupted else Continues,
      lg @ snd (get_all_metrics rt e []) @
        [(INFO, CurrentMetrics (fst (get_all_metrics rt e [])))] @
        alerts_of (fst (get_all_metrics rt e [])))"
proof -
  obtain m out where g0: "get_all_metrics rt e [] = (m, out)"
    by (cases "get_all_metrics rt e []")
  have g: "get_all_metrics rt e lg = (m, lg @ out)"
    using get_all_metrics_eq [of rt e lg] get_all_metrics_eq [of rt e "[]"] g0 by simp
  obtain r where ev0: "fst (evaluate_alerts m []) = r"
    by simp
  have ev: "evaluate_alerts m (lg @ out @ [(INFO, CurrentMetrics m)]) =
      (r, lg @ out @ [(INFO, CurrentMetrics m)] @ alerts_of m)"
    using evaluate_alerts_append [of m "lg @ out @ [(INFO, CurrentMetrics m)]"] ev0 by simp
  show ?thesis
    by (cases r) (simp_all add: tick_def g g0 ev ev0)
qed

lemma tick_append: "tick rt iv e lg = (fst (tick rt iv e []), lg @ snd (tick rt iv e []))"
  by (simp add: tick_eq [of rt iv e lg] tick_eq [of rt iv e "[]"])

lemma monitor_loop_continues:
  "\<forall>e \<in> set pre. fst (tick rt iv e []) = Continues \<Longrightarrow>
     monitor_loop rt iv (pre @ rest) lg =
     monitor_loop rt iv rest (lg @ concat (map (\<lambda>e. snd (tick rt iv e [])) pre))"
proof (induction pre arbitrary: lg)
  case Nil
  show ?case by simp
next
  case (Cons e pre)
  have c: "fst (tick rt iv e []) = Continues"
    using Cons.prems by simp
  have t: "tick rt iv e lg = (Continues, lg @ snd (tick rt iv e []))"
    using tick_append [of rt iv e lg] c by simp
  have "monitor_loop rt iv ((e # pre) @ rest) lg =
      monitor_loop rt iv (pre @ rest) (lg @ snd (tick rt iv e []))"
    by (simp add: t)
  also have "\<dots> = monitor_loop rt iv rest
      ((lg @ snd (tick rt iv e [])) @ concat (map (\<lambda>e. snd (tick rt iv e [])) pre))"
    using Cons.prems by (intro Cons.IH) simp
  finally show ?case by simp
qed

lemma monitor_loop_stops:
  assumes "\<forall>e' \<in> set pre. fst (tick rt iv e' []) = Continues"
    and "fst (tick rt iv e []) \<noteq> Continues"
  shows "monitor_loop rt iv (pre @ e # post) lg =
     (fst (tick rt iv e []), lg @ concat (map (\<lambda>e. snd (tick rt iv e [])) (pre @ [e])))"
proof -
  let ?lg = "lg @ concat (map (\<lambda>e. snd (tick rt iv e [])) pre)"
  have t: "tick rt iv e ?lg = (fst (tick rt iv e []), ?lg @ snd (tick rt iv e []))"
    by (rule tick_append)
  have "monitor_loop rt iv (pre @ e # post) lg = monitor_loop rt iv (e # post) ?lg"
    using assms(1) by (rule monitor_loop_continues)
  also have "\<dots> = (fst (tick rt iv e []), ?lg @ snd (tick rt iv e []))"
    using assms(2) by (cases "fst (tick rt iv e [])") (simp_all add: t)
  finally show ?thesis by simp
qed

lemma start_monitoring_raised:
  assumes "\<forall>e' \<in> set pre. fst (tick rt iv e' []) = Continues"
    and "fst (tick rt iv e []) = Raised ex"
  shows "start_monitoring rt iv (pre @ e # post) lg =
          (Failed ex,
           lg @ [(INFO, StartingMonitoring)] @
             concat (map (\<lambda>e. snd (tick rt iv e [])) (pre @ [e])) @
             [(ERROR, MonitoringError ex)])"
proof -
  have "fst (tick rt iv e []) \<noteq> Continues"
    using assms(2) by simp
  from monitor_loop_stops [OF assms(1) this, of post "lg @ [(INFO, StartingMonitoring)]"] assms(2)
  show ?thesis
    by (simp add: start_monitoring_def)
qed

text \<open>The example hosts, tick by tick.\<close>

lemma memory_down_sample: "memory_sample rt memory_down_host = Inl (OSError ''virtual_memory'')"
  by (simp add: memory_sample_def try_bind_def memory_down_host_def healthy_host_def)

lemma to_gb_exact_2: "to_gb exact_runtime 2147483648 = Inr (Finite 2)"
  by (simp add: to_gb_def try_bind_def exact_runtime_def round_half_even_def)

lemma to_gb_exact_1: "to_gb exact_runtime 1073741824 = Inr (Finite 1)"
  by (simp add: to_gb_def try_bind_def exact_runtime_def round_half_even_def)

lemma healthy_memory_sample:
  "memory_sample exact_runtime healthy_host =
     Inr [(''memory_used_percent'', PyFloat (Finite 50)),
          (''memory_available_gb'', PyFloat (Finite 2)),
          (''swap_used_percent'', PyFloat (Finite 0)),
          (''swap_free_gb'', PyFloat (Finite 1))]"
  unfolding memory_sample_def
  by (simp add: healthy_host_def try_bind_def to_gb_exact_2 to_gb_exact_1)

lemma tick_end_eq:
  "fst (tick rt iv e []) =
     (case dict_getitem (case memory_sample rt e of Inr d \<Rightarrow> d | Inl ex \<Rightarrow> [])
             ''memory_used_percent'' of
        Inl ex \<Rightarrow> Raised ex
      | Inr v \<Rightarrow> if iv < 0 then Raised ValueError
                 else if interrupted e then Interrupted else Continues)"
proof -
  have m: "memory (fst (get_all_metrics rt e [])) =
      (case memory_sample rt e of Inr d \<Rightarrow> d | Inl ex \<Rightarrow> [])"
    by (subst get_all_metrics_eq) simp
  show ?thesis
    unfolding tick_eq [of rt iv e "[]"] fst_conv evaluate_alerts_result m
    by (simp split: sum.splits)
qed

lemma memory_down_tick:
  "fst (tick rt iv memory_down_host []) = Raised (KeyError ''memory_used_percent'')"
  by (simp add: tick_end_eq memory_down_sample dict_getitem_def)

lemma healthy_not_interrupted: "\<not> interrupted healthy_host"
  by (simp add: healthy_host_def)

lemma healthy_tick: "fst (tick exact_runtime 60 healthy_host []) = Continues"
  by (simp add: tick_end_eq healthy_memory_sample dict_getitem_def healthy_not_interrupted)

lemma interrupted_tick: "fst (tick exact_runtime 60 interrupted_host []) = Interrupted"
proof -
  have "memory_sample exact_runtime interrupted_host = memory_sample exact_runtime healthy_host"
    by (simp add: memory_sample_def interrupted_host_def)
  then show ?thesis
    by (simp add: tick_end_eq healthy_memory_sample dict_getitem_def interrupted_host_def)
qed

text \<open>
  C2, as stated, fails: no \<^verbatim>\<open>KeyboardInterrupt\<close> arrives, the alert rules raise during the
  first tick, and the run ends there; the second tick is never started.
\<close>

theorem C2_loop_continues_counterexample:
  "\<not> interrupted memory_down_host \<and> \<not> interrupted healthy_host
   \<and> fst (start_monitoring exact_runtime 60 [memory_down_host, healthy_host] []) =
       Failed (KeyError ''memory_used_percent'')
   \<and> start_monitoring exact_runtime 60 [memory_down_host, healthy_host] [] =
       start_monitoring exact_runtime 60 [memory_down_host] []"
proof -
  have two: "start_monitoring exact_runtime 60 ([] @ memory_down_host # [healthy_host]) [] =
      (Failed (KeyError ''memory_used_percent''),
       [] @ [(INFO, StartingMonitoring)] @
         concat (map (\<lambda>e. snd (tick exact_runtime 60 e [])) ([] @ [memory_down_host])) @
         [(ERROR, MonitoringError (KeyError ''memory_used_percent''))])"
    by (rule start_monitoring_raised) (simp_all add: memory_down_tick)
  have one: "start_monitoring exact_runtime 60 ([] @ memory_down_host # []) [] =
      (Failed (KeyError ''memory_used_percent''),
       [] @ [(INFO, StartingMonitoring)] @
         concat (map (\<lambda>e. snd (tick exact_runtime 60 e [])) ([] @ [memory_down_host])) @
         [(ERROR, MonitoringError (KeyError ''memory_used_percent''))])"
    by (rule start_monitoring_raised) (simp_all add: memory_down_tick)
  have i: "\<not> interrupted memory_down_host" "\<not> interrupted healthy_host"
    by (simp_all add: memory_down_host_def healthy_host_def)
  have f: "fst (start_monitoring exact_runtime 60 [memory_down_host, healthy_host] []) =
       Failed (KeyError ''memory_used_percent'')"
    using two by simp
  have eq: "start_monitoring exact_runtime 60 [memory_down_host, healthy_host] [] =
       start_monitoring exact_runtime 60 [memory_down_host] []"
    using one two by simp
  from i f eq show ?thesis by blast
qed

text \<open>
  C2, amended. While every tick completes, the loop is still running. A tick during
  which an exception escapes ends the run: the exception is logged once, after what that
  tick had already logged, and no later tick is started. A \<^verbatim>\<open>KeyboardInterrupt\<close> ends the
  run in the same way, with its own log line.
\<close>

theorem C2_error_ends_loop:
  assumes "\<forall>e' \<in> set pre. fst (tick rt iv e' []) = Continues"
  shows "fst (start_monitoring rt iv pre lg) = Running
   \<and> (fst (tick rt iv e []) = Raised ex \<longrightarrow>
        start_monitoring rt iv (pre @ e # post) lg =
          (Failed ex,
           lg @ [(INFO, StartingMonitoring)] @
             concat (map (\<lambda>e. snd (tick rt iv e [])) (pre @ [e])) @
             [(ERROR, MonitoringError ex)]))
   \<and> (fst (tick rt iv e []) = Interrupted \<longrightarrow>
        start_monitoring rt iv (pre @ e # post) lg =
          (StoppedByUser,
           lg @ [(INFO, StartingMonitoring)] @
             concat (map (\<lambda>e. snd (tick rt iv e [])) (pre @ [e])) @
             [(INFO, MonitoringStopped)]))"
proof -
  have run: "monitor_loop rt iv pre l =
      (Continues, l @ concat (map (\<lambda>e. snd (tick rt iv e [])) pre))" for l
    using monitor_loop_continues [OF assms, of "[]" l] by simp
  have a: "fst (start_monitoring rt iv pre lg) = Running"
    by (simp add: start_monitoring_def run)
  have b: "fst (tick rt iv e []) = Raised ex \<longrightarrow>
        start_monitoring rt iv (pre @ e # post) lg =
          (Failed ex,
           lg @ [(INFO, StartingMonitoring)] @
             concat (map (\<lambda>e. snd (tick rt iv e [])) (pre @ [e])) @
             [(ERROR, MonitoringError ex)])"
  proof
    assume r: "fst (tick rt iv e []) = Raised ex"
    then have "fst (tick rt iv e []) \<noteq> Continues" by simp
    from monitor_loop_stops [OF assms this, of post "lg @ [(INFO, StartingMonitoring)]"] r
    show "start_monitoring rt iv (pre @ e # post) lg =
          (Failed ex,
           lg @ [(INFO, StartingMonitoring)] @
             concat (map (\<lambda>e. snd (tick rt iv e [])) (pre @ [e])) @
             [(ERROR, MonitoringError ex)])"
      by (simp add: start_monitoring_def)
  qed
  have c: "fst (tick rt iv e []) = Interrupted \<longrightarrow>
        start_monitoring rt iv (pre @ e # post) lg =
          (StoppedByUser,
           lg @ [(INFO, StartingMonitoring)] @
             concat (map (\<lambda>e. snd (tick rt iv e [])) (pre @ [e])) @
             [(INFO, MonitoringStopped)])"
  proof
    assume r: "fst (tick rt iv e []) = Interrupted"
    then have "fst (tick rt iv e []) \<noteq> Continues" by simp
    from monitor_loop_stops [OF assms this, of post "lg @ [(INFO, StartingMonitoring)]"] r
    show "start_monitoring rt iv (pre @ e # post) lg =
          (StoppedByUser,
           lg @ [(INFO, StartingMonitoring)] @
             concat (map (\<lambda>e. snd (tick rt iv e [])) (pre @ [e])) @
             [(INFO, MonitoringStopped)])"
      by (simp add: start_monitoring_def)
  qed
  from a b c show ?thesis by blast
qed

text \<open>
  A run of one healthy tick; a run over a healthy tick, a tick without memory sample and
  another healthy tick; and a run interrupted during its second tick.
\<close>

theorem C2_error_ends_loop_witness:
  "fst (start_monitoring exact_runtime 60 [healthy_host] []) = Running
   \<and> fst (start_monitoring exact_runtime 60 [healthy_host, memory_down_host, healthy_host] []) =
       Failed (KeyError ''memory_used_percent'')
   \<and> fst (start_monitoring exact_runtime 60 [healthy_host, interrupted_host, healthy_host] []) =
       StoppedByUser"
proof -
  have pre: "\<forall>e' \<in> set [healthy_host]. fst (tick exact_runtime 60 e' []) = Continues"
    by (simp add: healthy_tick)
  have r: "fst (tick exact_runtime 60 memory_down_host []) = Raised (KeyError ''memory_used_percent'')"
    by (rule memory_down_tick)
  have "fst (start_monitoring exact_runtime 60 [healthy_host] []) = Running"
    using C2_error_ends_loop [OF pre] by blast
  moreover have "start_monitoring exact_runtime 60
      ([healthy_host] @ memory_down_host # [healthy_host]) [] =
          (Failed (KeyError ''memory_used_percent''),
           [] @ [(INFO, StartingMonitoring)] @
             concat (map (\<lambda>e. snd (tick exact_runtime 60 e []))
               ([healthy_host] @ [memory_down_host])) @
             [(ERROR, MonitoringError (KeyError ''memory_used_percent''))])"
    using C2_error_ends_loop [OF pre, where e = memory_down_host
        and ex = "KeyError ''memory_used_percent''"] r by blast
  moreover have "start_monitoring exact_runtime 60
      ([healthy_host] @ interrupted_host # [healthy_host]) [] =
          (StoppedByUser,
           [] @ [(INFO, StartingMonitoring)] @
             concat (map (\<lambda>e. snd (tick exact_runtime 60 e []))
               ([healthy_host] @ [interrupted_host])) @
             [(INFO, MonitoringStopped)])"
    using C2_error_ends_loop [OF pre, where e = interrupted_host] interrupted_tick by blast
  ultimately show ?thesis by simp
qed

text \<open>
  C1, on the host whose memory source raises: the snapshot's memory field is the empty
  dict and no HighMemory warning is written, but the memory rule is not skipped: its
  subscript raises \<^verbatim>\<open>KeyError\<close>, which ends the evaluation and the whole run.
\<close>

theorem C1_memory_absent_raises:
  "memory (fst (get_all_metrics rt memory_down_host lg)) = []
   \<and> filter is_high_memory (alerts_of (fst (get_all_metrics rt memory_down_host lg))) = []
   \<and> fst (evaluate_alerts (fst (get_all_metrics rt memory_down_host lg)) lg') =
       Inl (KeyError ''memory_used_percent'')
   \<and> fst (start_monitoring rt 60 [memory_down_host] []) =
       Failed (KeyError ''memory_used_percent'')"
proof -
  let ?m = "fst (get_all_metrics rt memory_down_host lg)"
  have m: "memory ?m = []"
    by (subst get_all_metrics_eq) (simp add: memory_down_sample)
  have "filter is_high_memory (temperature_rule ?m []) = []"
    by (simp add: temperature_rule_def is_high_memory_def split: option.splits)
  then have h: "filter is_high_memory (alerts_of ?m) = []"
    unfolding alerts_of_eq [of ?m] m by (simp add: dict_getitem_def)
  have e: "fst (evaluate_alerts ?m lg') = Inl (KeyError ''memory_used_percent'')"
    unfolding evaluate_alerts_result m by (simp add: dict_getitem_def)
  have "start_monitoring rt 60 ([] @ memory_down_host # []) [] =
      (Failed (KeyError ''memory_used_percent''),
       [] @ [(INFO, StartingMonitoring)] @
         concat (map (\<lambda>e. snd (tick rt 60 e [])) ([] @ [memory_down_host])) @
         [(ERROR, MonitoringError (KeyError ''memory_used_percent''))])"
    by (rule start_monitoring_raised) (simp_all add: memory_down_tick)
  then have s: "fst (start_monitoring rt 60 [memory_down_host] []) =
       Failed (KeyError ''memory_used_percent'')"
    by simp
  from m h e s show ?thesis by blast
qed

end
